theory Spec2Isabelle
  imports Complex_Main "HOL-Library.AList" "HOL-Library.Multiset" "HOL-Library.Sublist"
begin

section \<open>Longitudinal commit metrics: the embedding of \<open>analyze_repository.py\<close>\<close>

text \<open>
  The development follows \<open>src/analyze_repository.py\<close>. Python dictionaries keep their
  insertion order, so every dictionary of the program (the \<open>defaultdict\<close>s, the
  \<open>Counter\<close>, \<open>commit.stats.files\<close>) is an association list whose keys are in
  insertion order. Python's unbounded integers are \<open>int\<close>. Python floats are idealised
  as \<open>real\<close>: rounding, overflow, underflow and NaN are not modelled, so every equation
  between float results below is an equation between the exact real values.
  Exceptions are values of the type \<open>error\<close>; a function that can raise returns
  \<open>error + 'a\<close> with \<open>Inl\<close> for the exception.
\<close>

subsection \<open>Exceptions and dictionaries\<close>

datatype error = ZeroDivisionError | ValueError | KeyError | ExtractorError

type_synonym 'v dict = "(string \<times> 'v) list"

definition dict_values :: "'v dict \<Rightarrow> 'v list" where
  "dict_values d = map snd d"

definition dict_keys :: "'v dict \<Rightarrow> string list" where
  "dict_keys d = map fst d"

text \<open>\<open>d[k]\<close> of a \<open>defaultdict\<close> or \<open>Counter\<close> whose missing value is \<open>dflt\<close>.\<close>

definition dict_get :: "'v dict \<Rightarrow> string \<Rightarrow> 'v \<Rightarrow> 'v" where
  "dict_get d k dflt = (case map_of d k of None \<Rightarrow> dflt | Some v \<Rightarrow> v)"

text \<open>\<open>d[k] += 1\<close> on a \<open>defaultdict(int)\<close> or a \<open>Counter\<close>.\<close>

definition dict_incr :: "int dict \<Rightarrow> string \<Rightarrow> int dict" where
  "dict_incr d k = AList.update k (dict_get d k 0 + 1) d"

text \<open>\<open>d[k].add(x)\<close> on a \<open>defaultdict(set)\<close>.\<close>

definition dict_add :: "'a set dict \<Rightarrow> string \<Rightarrow> 'a \<Rightarrow> 'a set dict" where
  "dict_add d k x = AList.update k (insert x (dict_get d k {})) d"

subsection \<open>\<open>calculate_entropy\<close> (lines 22--48)\<close>

text \<open>\<open>math.log2\<close> raises \<open>ValueError\<close> (math domain error) outside the positive reals.\<close>

definition math_log2 :: "real \<Rightarrow> error + real" where
  "math_log2 x = (if 0 < x then Inr (log 2 x) else Inl ValueError)"

text \<open>
  The builtin \<open>sum\<close> over the generator of line 46: the terms are produced and added in
  the order of \<open>change_counts.values()\<close>, and the first term whose logarithm raises ends
  the evaluation. The quotient \<open>cnt / tot\<close> is taken exactly. Python's quotient is the
  nearest float, which is \<open>0.0\<close> when the exact quotient is positive and at most
  \<open>2 ^ -1075\<close>, and \<open>math.log2(0.0)\<close> raises: on such a mapping the program raises
  where this model returns. The counts of such a mapping sum to \<open>2 ^ 1075\<close> at least;
  the mappings the walk builds hold one count of 1 for each changed file of a commit.
  A statement below about \<open>calculate_entropy\<close> on an arbitrary mapping is made under
  the bound that keeps every quotient above \<open>2 ^ -1075\<close>.
\<close>

fun sum_terms :: "int \<Rightarrow> real \<Rightarrow> int list \<Rightarrow> error + real" where
  "sum_terms tot acc [] = Inr acc"
| "sum_terms tot acc (cnt # rest) =
     (case math_log2 (real_of_int cnt / real_of_int tot) of
        Inl e \<Rightarrow> Inl e
      | Inr l \<Rightarrow> sum_terms tot (acc + (real_of_int cnt / real_of_int tot) * l) rest)"

definition calculate_entropy :: "int dict \<Rightarrow> error + real" where
  "calculate_entropy change_counts =
     (let tot = sum_list (dict_values change_counts) in
      if tot = 0 then Inr 0
      else (case sum_terms tot 0 (dict_values change_counts) of
              Inl e \<Rightarrow> Inl e
            | Inr s \<Rightarrow> Inr (- s)))"

text \<open>
  The estimator as section 4.1 of the specification words it: \<open>tot\<close> is the sum of
  the counts; the result is 0 when \<open>tot = 0\<close> and otherwise the sum of
  \<open>- p * log2 p\<close> for \<open>p = cnt / tot\<close>. This definition follows the
  specification, not the code; it is what \<open>calculate_entropy\<close> is compared with.
\<close>

definition spec_entropy :: "int dict \<Rightarrow> real" where
  "spec_entropy change_counts =
     (let tot = sum_list (map snd change_counts) in
      if tot = 0 then 0
      else - (\<Sum>cnt \<leftarrow> map snd change_counts.
                (real_of_int cnt / real_of_int tot) * log 2 (real_of_int cnt / real_of_int tot)))"

subsection \<open>The content metric extractors (lines 51--127)\<close>

type_synonym datetime = int

text \<open>One output row: the dictionary appended to \<open>data\<close> at lines 183--197.\<close>

record row =
  commit_hash :: string
  commit_date :: datetime
  author :: string
  files_changed :: int
  lines_added :: int
  lines_deleted :: int
  total_cyclomatic_complexity :: int
  total_maintainability_index :: real
  total_cohesion_metric_lcom :: int
  total_coupling_metric_imports :: int
  code_entropy :: real
  commit_frequency_by_author :: int
  unique_authors_per_file_avg :: real

text \<open>
  What the program takes from outside the repository's code: the clock, the analysers of
  radon and lizard, the regular-expression engine and the sort of pandas. Each is a
  parameter. An analyser that raises returns \<open>None\<close>.
  \<^item> \<open>fromtimestamp\<close>: \<open>datetime.fromtimestamp\<close>, \<open>None\<close> when it raises;
    a \<open>datetime\<close> is a point of a linearly ordered time axis.
  \<^item> \<open>one_year_ago\<close>: \<open>datetime.now() - timedelta(days=365)\<close>, computed once at line 137.
  \<^item> \<open>cc_visit\<close>: the \<open>complexity\<close> of each block radon finds.
  \<^item> \<open>lizard_analyze\<close>: the \<open>cyclomatic_complexity\<close> of each function in
    the \<open>function_list\<close> lizard returns.
  \<^item> \<open>mi_visit\<close>: the value of the expression \<open>mi_visit(source_code, False)['mi']\<close>
    of line 95, \<open>None\<close> when evaluating it raises.
  \<^item> \<open>findall_imports\<close>: the number of matches \<open>re.findall\<close> returns at line 127.
  \<^item> \<open>sort_values\<close>: \<open>DataFrame.sort_values('commit_date')\<close> with the default
    arguments, on the rows of the frame.
\<close>

record env =
  fromtimestamp :: "int \<Rightarrow> datetime option"
  one_year_ago :: datetime
  cc_visit :: "string \<Rightarrow> int list option"
  lizard_analyze :: "string \<Rightarrow> int list option"
  mi_visit :: "string \<Rightarrow> real option"
  findall_imports :: "string \<Rightarrow> nat"
  sort_values :: "row list \<Rightarrow> row list"

definition measure_cyclomatic_complexity :: "env \<Rightarrow> string \<Rightarrow> string \<Rightarrow> error + int" where
  "measure_cyclomatic_complexity E source_code file_extension =
     (if file_extension = ''.py'' then
        (case cc_visit E source_code of
           None \<Rightarrow> Inl ExtractorError
         | Some complexity_list \<Rightarrow> Inr (sum_list complexity_list))
      else
        (case lizard_analyze E source_code of
           None \<Rightarrow> Inl ExtractorError
         | Some function_list \<Rightarrow> Inr (sum_list function_list)))"

text \<open>The two extractors with a bare \<open>except\<close> return 0 when the analyser raises.\<close>

definition measure_maintainability_index :: "env \<Rightarrow> string \<Rightarrow> real" where
  "measure_maintainability_index E source_code =
     (case mi_visit E source_code of None \<Rightarrow> 0 | Some mi \<Rightarrow> mi)"

definition measure_cohesion_lcom :: "env \<Rightarrow> string \<Rightarrow> int" where
  "measure_cohesion_lcom E source_code =
     (case lizard_analyze E source_code of
        None \<Rightarrow> 0
      | Some function_list \<Rightarrow> int (length function_list))"

definition measure_coupling_imports :: "env \<Rightarrow> string \<Rightarrow> int" where
  "measure_coupling_imports E source_code = int (findall_imports E source_code)"

subsection \<open>Commits\<close>

record file_stats =
  insertions :: int
  deletions :: int

text \<open>
  A commit as the history walker hands it over. \<open>stats_files\<close> is
  \<open>commit.stats.files\<close>. \<open>blob_source c file\<close> is the text lines 166--167 read,
  \<open>(commit.tree / file).data_stream.read().decode("utf-8", errors="ignore")\<close>, and
  \<open>None\<close> when the lookup in the tree or the read raises.
\<close>

record commit =
  hexsha :: string
  committed_date :: int
  author_email :: string
  stats_files :: "file_stats dict"
  blob_source :: "string \<Rightarrow> string option"

subsection \<open>File names\<close>

definition endswith :: "string \<Rightarrow> string list \<Rightarrow> bool" where
  "endswith s sufs = list_ex (\<lambda>suf. suffix suf s) sufs"

text \<open>
  \<open>os.path.splitext(file)[1]\<close> on a POSIX path: the extension starts at the last dot of
  the last path component, and dots that lead the component do not start an extension.
\<close>

definition splitext_ext :: "string \<Rightarrow> string" where
  "splitext_ext p =
     (let base_rev = takeWhile (\<lambda>ch. ch \<noteq> CHR ''/'') (rev p);
          ext_rev = takeWhile (\<lambda>ch. ch \<noteq> CHR ''.'') base_rev;
          rest = dropWhile (\<lambda>ch. ch \<noteq> CHR ''.'') base_rev
      in case rest of
           [] \<Rightarrow> []
         | dot # stem_rev \<Rightarrow>
             if list_all (\<lambda>ch. ch = CHR ''.'') stem_rev then []
             else rev (ext_rev @ [dot]))"

subsection \<open>The loop over the files of one commit (lines 159--179)\<close>

record commit_sums =
  churn_add :: int
  churn_del :: int
  file_count :: int
  complexity_total :: int
  mi_total :: real
  lcom_total :: int
  import_count_total :: int

definition zero_sums :: commit_sums where
  "zero_sums = \<lparr>churn_add = 0, churn_del = 0, file_count = 0, complexity_total = 0,
                 mi_total = 0, lcom_total = 0, import_count_total = 0\<rparr>"

text \<open>
  The \<open>try\<close> block of lines 165--179. An exception anywhere in it leaves the sums as
  they are at that point and goes on to the next file: the three counters are updated at
  lines 168--170, before the first analyser is called at line 173.
\<close>

definition try_block :: "env \<Rightarrow> commit \<Rightarrow> string \<Rightarrow> commit_sums \<Rightarrow> commit_sums" where
  "try_block E c file s =
     (case blob_source c file of
        None \<Rightarrow> s
      | Some source_code \<Rightarrow>
          (case map_of (stats_files c) file of
             None \<Rightarrow> s
           | Some st \<Rightarrow>
               (let s1 = s\<lparr>churn_add := churn_add s + insertions st,
                           churn_del := churn_del s + deletions st,
                           file_count := file_count s + 1\<rparr>;
                    ext = splitext_ext file
                in case measure_cyclomatic_complexity E source_code ext of
                     Inl e \<Rightarrow> s1
                   | Inr cc \<Rightarrow>
                       (let s2 = s1\<lparr>complexity_total := complexity_total s1 + cc\<rparr>;
                            s3 = (if ext = ''.py''
                                  then s2\<lparr>mi_total := mi_total s2
                                             + measure_maintainability_index E source_code\<rparr>
                                  else s2);
                            s4 = s3\<lparr>import_count_total := import_count_total s3
                                        + measure_coupling_imports E source_code\<rparr>
                        in s4\<lparr>lcom_total := lcom_total s4
                                  + measure_cohesion_lcom E source_code\<rparr>))))"

text \<open>Lines 164--179: only a file with an accepted extension enters the \<open>try\<close> block.\<close>

definition filter_block :: "env \<Rightarrow> commit \<Rightarrow> string \<Rightarrow> commit_sums \<Rightarrow> commit_sums" where
  "filter_block E c file s =
     (if endswith file [''.py'', ''.java''] then try_block E c file s else s)"

text \<open>
  The state of the loop: \<open>file_change_counter\<close>, \<open>file_ownership\<close> and the sums.
  (\<open>file_path\<close> of line 160 is never read.)
\<close>

type_synonym loop_state = "int dict \<times> string set dict \<times> commit_sums"

definition file_step :: "env \<Rightarrow> commit \<Rightarrow> loop_state \<Rightarrow> string \<Rightarrow> loop_state" where
  "file_step E c ls file =
     (case ls of (file_change_counter, owners, s) \<Rightarrow>
        (dict_incr file_change_counter file,
         dict_add owners file (author_email c),
         filter_block E c file s))"

definition files_loop :: "env \<Rightarrow> commit \<Rightarrow> string set dict \<Rightarrow> loop_state" where
  "files_loop E c owners =
     foldl (file_step E c) ([], owners, zero_sums) (dict_keys (stats_files c))"

subsection \<open>The walk (lines 132--197)\<close>

record walk_state =
  data :: "row list"
  file_ownership :: "string set dict"
  commit_counts_by_author :: "int dict"

definition init_state :: walk_state where
  "init_state = \<lparr>data = [], file_ownership = [], commit_counts_by_author = []\<rparr>"

text \<open>A commit qualifies when its timestamp converts and is not before the cutoff.\<close>

definition qualifies :: "env \<Rightarrow> commit \<Rightarrow> bool" where
  "qualifies E c =
     (case fromtimestamp E (committed_date c) of
        None \<Rightarrow> False
      | Some d \<Rightarrow> \<not> d < one_year_ago E)"

text \<open>
  Line 196: the sum of the sizes of the owner sets divided by the number of files, a true
  division that raises when the dictionary is empty.
\<close>

definition owners_avg :: "string set dict \<Rightarrow> error + real" where
  "owners_avg fo =
     (if length fo = 0 then Inl ZeroDivisionError
      else Inr (real (sum_list (map card (dict_values fo))) / real (length fo)))"

text \<open>The dictionary of lines 183--197, from the values computed for the commit.\<close>

definition make_row ::
    "commit \<Rightarrow> datetime \<Rightarrow> commit_sums \<Rightarrow> real \<Rightarrow> int \<Rightarrow> real \<Rightarrow> row" where
  "make_row c cdate s entropy frequency avg =
     \<lparr>commit_hash = hexsha c,
      commit_date = cdate,
      author = author_email c,
      files_changed = file_count s,
      lines_added = churn_add s,
      lines_deleted = churn_del s,
      total_cyclomatic_complexity = complexity_total s,
      total_maintainability_index = mi_total s,
      total_cohesion_metric_lcom = lcom_total s,
      total_coupling_metric_imports = import_count_total s,
      code_entropy = entropy,
      commit_frequency_by_author = frequency,
      unique_authors_per_file_avg = avg\<rparr>"

text \<open>
  The body of the loop over the commits. Both \<open>continue\<close>s return the state unchanged;
  an exception that nothing catches ends the walk. The counter of the author is
  incremented at line 157, before the files are read and the row is built.
\<close>

definition loop_body :: "env \<Rightarrow> walk_state \<Rightarrow> commit \<Rightarrow> error + walk_state" where
  "loop_body E st c =
     (case fromtimestamp E (committed_date c) of
        None \<Rightarrow> Inr st
      | Some cdate \<Rightarrow>
          if cdate < one_year_ago E then Inr st
          else
            (let counts = dict_incr (commit_counts_by_author st) (author_email c)
             in case files_loop E c (file_ownership st) of
                  (file_change_counter, owners, s) \<Rightarrow>
                    (case calculate_entropy file_change_counter of
                       Inl e \<Rightarrow> Inl e
                     | Inr entropy \<Rightarrow>
                         (case owners_avg owners of
                            Inl e \<Rightarrow> Inl e
                          | Inr avg \<Rightarrow>
                              Inr \<lparr>data = data st @
                                     [make_row c cdate s entropy
                                        (dict_get counts (author_email c) 0) avg],
                                   file_ownership = owners,
                                   commit_counts_by_author = counts\<rparr>))))"

fun walk :: "env \<Rightarrow> walk_state \<Rightarrow> commit list \<Rightarrow> error + walk_state" where
  "walk E st [] = Inr st"
| "walk E st (c # cs) =
     (case loop_body E st c of
        Inl e \<Rightarrow> Inl e
      | Inr st' \<Rightarrow> walk E st' cs)"

subsection \<open>The data frame (lines 199--206)\<close>

text \<open>
  \<open>pd.DataFrame(data)\<close> takes its columns from the keys of the dictionaries, so a frame
  built from no dictionary has no column, and \<open>df['commit_date']\<close> raises
  \<open>KeyError\<close> on it. \<open>pd.to_datetime\<close> keeps the order of the timestamps.
\<close>

definition DataFrame_columns :: "row list \<Rightarrow> string list" where
  "DataFrame_columns rows =
     (if rows = [] then []
      else [''commit_hash'', ''commit_date'', ''author'', ''files_changed'', ''lines_added'',
            ''lines_deleted'', ''total_cyclomatic_complexity'', ''total_maintainability_index'',
            ''total_cohesion_metric_lcom'', ''total_coupling_metric_imports'', ''code_entropy'',
            ''commit_frequency_by_author'', ''unique_authors_per_file_avg''])"

definition assemble :: "env \<Rightarrow> row list \<Rightarrow> error + row list" where
  "assemble E rows =
     (if ''commit_date'' \<in> set (DataFrame_columns rows)
      then Inr (sort_values E rows)
      else Inl KeyError)"

definition analyze_repository :: "env \<Rightarrow> commit list \<Rightarrow> error + row list" where
  "analyze_repository E commits =
     (case walk E init_state commits of
        Inl e \<Rightarrow> Inl e
      | Inr st \<Rightarrow> assemble E (data st))"

text \<open>
  What pandas promises of \<open>sort_values\<close> whatever the \<open>kind\<close>: the rows come back
  rearranged, in ascending order of the column.
\<close>

definition sorts_by_commit_date :: "(row list \<Rightarrow> row list) \<Rightarrow> bool" where
  "sorts_by_commit_date srt =
     (\<forall>rows. sorted (map commit_date (srt rows)) \<and> mset (srt rows) = mset rows)"

subsection \<open>The components of the loop over the files\<close>

text \<open>
  The three components of the state of \<open>files_loop\<close> do not read one another, so each
  is a fold of its own over the files of the commit: the counter handed to
  \<open>calculate_entropy\<close>, the ownership dictionary, and the sums. \<open>files_loop_eq\<close> below
  proves that \<open>files_loop\<close> is the triple of the three.
\<close>

definition counter_of :: "string list \<Rightarrow> int dict" where
  "counter_of files = foldl dict_incr [] files"

definition owners_after :: "string set dict \<Rightarrow> string \<Rightarrow> string list \<Rightarrow> string set dict" where
  "owners_after owners a files = foldl (\<lambda>d file. dict_add d file a) owners files"

definition sums_of :: "env \<Rightarrow> commit \<Rightarrow> commit_sums \<Rightarrow> string list \<Rightarrow> commit_sums" where
  "sums_of E c s files = foldl (\<lambda>s file. filter_block E c file s) s files"

text \<open>The seven sums a row carries, read back as the record of the sums.\<close>

definition row_sums :: "row \<Rightarrow> commit_sums" where
  "row_sums r = \<lparr>churn_add = lines_added r, churn_del = lines_deleted r,
                 file_count = files_changed r,
                 complexity_total = total_cyclomatic_complexity r,
                 mi_total = total_maintainability_index r,
                 lcom_total = total_cohesion_metric_lcom r,
                 import_count_total = total_coupling_metric_imports r\<rparr>"

text \<open>The four sums that come from the content of the files.\<close>

definition metric_sums :: "commit_sums \<Rightarrow> int \<times> real \<times> int \<times> int" where
  "metric_sums s = (complexity_total s, mi_total s, lcom_total s, import_count_total s)"

text \<open>
  The two ways the \<open>try\<close> block is left by an exception: the content of the file
  cannot be read (lines 166--167), or the content is read and
  \<open>measure_cyclomatic_complexity\<close> raises (line 173). The analysers behind
  \<open>measure_maintainability_index\<close> and \<open>measure_cohesion_lcom\<close> cannot leave the
  block: their own \<open>except\<close> turns an exception into the value 0.
\<close>

definition retrieval_fails :: "commit \<Rightarrow> string \<Rightarrow> bool" where
  "retrieval_fails c file = (blob_source c file = None)"

definition complexity_raises :: "env \<Rightarrow> commit \<Rightarrow> string \<Rightarrow> bool" where
  "complexity_raises E c file =
     (case blob_source c file of
        None \<Rightarrow> False
      | Some source_code \<Rightarrow>
          (case measure_cyclomatic_complexity E source_code (splitext_ext file) of
             Inl e \<Rightarrow> True
           | Inr cc \<Rightarrow> False))"

text \<open>Every owner set of the dictionary is finite.\<close>

definition finite_owners :: "string set dict \<Rightarrow> bool" where
  "finite_owners d = list_all finite (dict_values d)"

subsection \<open>A concrete environment and concrete commits\<close>

text \<open>
  The theorems below are instantiated on these. In \<open>demo_env\<close> negative timestamps do
  not convert, the cutoff is 1000, every analyser raises on the text \<open>def f(:\<close>, the maintainability
  analyser also on the text \<open>while\<close>, and
  the frame is sorted by insertion sort. \<open>demo_x\<close>, \<open>demo_xy\<close> and \<open>demo_y\<close> are the
  three commits of the scenario of section 8 of the specification, newest first.
\<close>

definition demo_env :: env where
  "demo_env =
     \<lparr>fromtimestamp = (\<lambda>t. if t < 0 then None else Some t),
      one_year_ago = 1000,
      cc_visit = (\<lambda>src. if src = ''def f(:'' then None else Some [1, 2]),
      lizard_analyze = (\<lambda>src. if src = ''def f(:'' then None else Some [1, 1, 1]),
      mi_visit = (\<lambda>src. if src = ''def f(:'' \<or> src = ''while'' then None else Some 50),
      findall_imports = (\<lambda>src. 1),
      sort_values = sort_key commit_date\<rparr>"

definition demo_empty :: commit where
  "demo_empty = \<lparr>hexsha = ''e1'', committed_date = 2000, author_email = ''ann'',
                  stats_files = [], blob_source = (\<lambda>file. None)\<rparr>"

definition demo_raise :: commit where
  "demo_raise =
     \<lparr>hexsha = ''c2'', committed_date = 3000, author_email = ''bob'',
      stats_files = [(''bad.py'', \<lparr>insertions = 3, deletions = 1\<rparr>)],
      blob_source = (\<lambda>file. if file = ''bad.py'' then Some ''def f(:'' else None)\<rparr>"

definition demo_mixed :: commit where
  "demo_mixed =
     \<lparr>hexsha = ''c3'', committed_date = 4000, author_email = ''ann'',
      stats_files = [(''a.py'', \<lparr>insertions = 5, deletions = 2\<rparr>),
                     (''gone.py'', \<lparr>insertions = 0, deletions = 7\<rparr>),
                     (''bad.py'', \<lparr>insertions = 3, deletions = 1\<rparr>),
                     (''README.md'', \<lparr>insertions = 1, deletions = 1\<rparr>)],
      blob_source = (\<lambda>file. if file = ''a.py'' then Some ''import os''
                             else if file = ''bad.py'' then Some ''def f(:''
                             else if file = ''README.md'' then Some ''text''
                             else None)\<rparr>"

definition demo_old :: commit where
  "demo_old = \<lparr>hexsha = ''c0'', committed_date = 10, author_email = ''ann'',
                stats_files = [(''a.py'', \<lparr>insertions = 1, deletions = 0\<rparr>)],
                blob_source = (\<lambda>file. Some ''import os'')\<rparr>"

definition demo_undated :: commit where
  "demo_undated = \<lparr>hexsha = ''c9'', committed_date = - 5, author_email = ''bob'',
                    stats_files = [(''a.py'', \<lparr>insertions = 1, deletions = 0\<rparr>)],
                    blob_source = (\<lambda>file. Some ''import os'')\<rparr>"

definition demo_x :: commit where
  "demo_x = \<lparr>hexsha = ''s1'', committed_date = 5000, author_email = ''a'',
              stats_files = [(''x'', \<lparr>insertions = 1, deletions = 0\<rparr>)],
              blob_source = (\<lambda>file. None)\<rparr>"

definition demo_xy :: commit where
  "demo_xy = \<lparr>hexsha = ''s2'', committed_date = 4000, author_email = ''a'',
               stats_files = [(''x'', \<lparr>insertions = 1, deletions = 1\<rparr>),
                              (''y'', \<lparr>insertions = 2, deletions = 0\<rparr>)],
               blob_source = (\<lambda>file. None)\<rparr>"

definition demo_y :: commit where
  "demo_y = \<lparr>hexsha = ''s3'', committed_date = 3000, author_email = ''a'',
              stats_files = [(''y'', \<lparr>insertions = 0, deletions = 2\<rparr>)],
              blob_source = (\<lambda>file. None)\<rparr>"

definition demo_bob :: commit where
  "demo_bob = \<lparr>hexsha = ''s4'', committed_date = 2000, author_email = ''b'',
                stats_files = [(''y'', \<lparr>insertions = 4, deletions = 4\<rparr>),
                               (''z.java'', \<lparr>insertions = 9, deletions = 0\<rparr>)],
                blob_source = (\<lambda>file. None)\<rparr>"

definition demo_docs :: commit where
  "demo_docs = \<lparr>hexsha = ''d1'', committed_date = 6000, author_email = ''ann'',
                 stats_files = [(''README.md'', \<lparr>insertions = 10, deletions = 2\<rparr>),
                                (''Makefile'', \<lparr>insertions = 1, deletions = 0\<rparr>)],
                 blob_source = (\<lambda>file. Some ''text'')\<rparr>"

section \<open>Properties\<close>

subsection \<open>The change-distribution estimator\<close>

lemma dict_values_length: "length (dict_values d) = length d"
  by (simp add: dict_values_def)

lemma sum_terms_ok:
  "\<forall>c\<in>set cs. 0 < real_of_int c / real_of_int tot \<Longrightarrow>
   sum_terms tot acc cs =
     Inr (acc + (\<Sum>c\<leftarrow>cs. (real_of_int c / real_of_int tot) * log 2 (real_of_int c / real_of_int tot)))"
  by (induction cs arbitrary: acc) (simp_all add: math_log2_def algebra_simps)

lemma sum_terms_raises:
  "\<exists>c\<in>set cs. \<not> 0 < real_of_int c / real_of_int tot \<Longrightarrow> sum_terms tot acc cs = Inl ValueError"
  by (induction cs arbitrary: acc) (auto simp: math_log2_def)

lemma ratio_pos_iff: "tot \<noteq> 0 \<Longrightarrow> (0 < real_of_int c / real_of_int tot) = (0 < c * tot)"
  by (simp add: zero_less_divide_iff zero_less_mult_iff)

lemma calculate_entropy_cases:
  "calculate_entropy m =
     (if sum_list (dict_values m) = 0 then Inr 0
      else if \<forall>c\<in>set (dict_values m). 0 < c * sum_list (dict_values m) then Inr (spec_entropy m)
      else Inl ValueError)"
proof -
  let ?t = "sum_list (dict_values m)"
  show ?thesis
  proof (cases "?t = 0")
    case True
    then show ?thesis by (simp add: calculate_entropy_def)
  next
    case nz: False
    show ?thesis
    proof (cases "\<forall>c\<in>set (dict_values m). 0 < c * ?t")
      case True
      then have "\<forall>c\<in>set (dict_values m). 0 < real_of_int c / real_of_int ?t"
        using nz by (simp add: ratio_pos_iff)
      from sum_terms_ok [OF this, of 0] nz True show ?thesis
        by (simp add: calculate_entropy_def spec_entropy_def dict_values_def Let_def)
    next
      case False
      then have "\<exists>c\<in>set (dict_values m). \<not> 0 < real_of_int c / real_of_int ?t"
        using nz by (simp add: ratio_pos_iff)
      from sum_terms_raises [OF this, of 0] nz False show ?thesis
        by (simp add: calculate_entropy_def Let_def)
    qed
  qed
qed

lemma all_pos_sum: "\<forall>c\<in>set (cs::int list). 0 < c \<Longrightarrow> cs \<noteq> [] \<Longrightarrow> 0 < sum_list cs"
proof (induction cs)
  case Nil
  then show ?case by simp
next
  case (Cons a cs)
  have "0 \<le> sum_list cs" using Cons.prems(1) by (intro sum_list_nonneg) auto
  moreover have "0 < a" using Cons.prems(1) by simp
  ultimately show ?case by simp
qed

lemma all_eq_replicate: "\<forall>x\<in>set xs. x = c \<Longrightarrow> xs = replicate (length xs) c"
  by (induction xs) auto

lemma sum_list_replicate_real: "(\<Sum>x\<leftarrow>replicate k c. f x) = real k * (f c :: real)"
  by (induction k) (simp_all add: algebra_simps)

lemma sum_list_replicate_int: "sum_list (replicate k (c::int)) = int k * c"
  by (induction k) (simp_all add: algebra_simps)

lemma calculate_entropy_equal_counts:
  assumes eq: "\<forall>x\<in>set (dict_values m). x = c" and c: "c \<noteq> 0" and ne: "m \<noteq> []"
  shows "calculate_entropy m = Inr (log 2 (real (length m)))"
proof -
  let ?k = "length m"
  have k: "0 < ?k" using ne by simp
  have vals: "dict_values m = replicate ?k c"
    using all_eq_replicate [OF eq] by (simp add: dict_values_def)
  have tot: "sum_list (dict_values m) = int ?k * c"
    by (simp add: vals sum_list_replicate_int)
  have nz: "sum_list (dict_values m) \<noteq> 0" using k c by (simp add: tot)
  have pos: "\<forall>x\<in>set (dict_values m). 0 < x * sum_list (dict_values m)"
  proof
    fix x assume "x \<in> set (dict_values m)"
    then have "x = c" using eq by simp
    moreover have "0 < c * c" using c by (auto simp: zero_less_mult_iff)
    ultimately have "x * sum_list (dict_values m) = int ?k * (c * c)" and "0 < int ?k * (c * c)"
      using k by (simp_all add: tot)
    then show "0 < x * sum_list (dict_values m)" by simp
  qed
  have ratio: "real_of_int c / real_of_int (int ?k * c) = 1 / real ?k"
    using c by simp
  have "spec_entropy m =
      - (\<Sum>x\<leftarrow>dict_values m.
           (real_of_int x / real_of_int (sum_list (dict_values m)))
           * log 2 (real_of_int x / real_of_int (sum_list (dict_values m))))"
    using nz by (simp add: spec_entropy_def dict_values_def Let_def)
  also have "\<dots> = - (\<Sum>x\<leftarrow>replicate ?k c.
           (real_of_int x / real_of_int (int ?k * c))
           * log 2 (real_of_int x / real_of_int (int ?k * c)))"
    unfolding tot vals [symmetric] ..
  also have "\<dots> = - (real ?k * ((1 / real ?k) * log 2 (1 / real ?k)))"
    unfolding sum_list_replicate_real ratio ..
  also have "\<dots> = - log 2 (1 / real ?k)" using k by simp
  also have "\<dots> = log 2 (real ?k)" using k by (simp add: log_divide)
  finally have "spec_entropy m = log 2 (real ?k)" .
  then show ?thesis using nz pos by (simp add: calculate_entropy_cases)
qed

text \<open>
  The bound under which the float quotient of a positive count does not underflow:
  the exact quotient is above \<open>2 ^ -1075\<close>.
\<close>

lemma quotient_above_underflow:
  assumes "0 < tot" and "tot < c * 2 ^ 1075"
  shows "1 / 2 ^ 1075 < real_of_int c / real_of_int tot"
proof -
  have "real_of_int tot < real_of_int (c * 2 ^ 1075)" using assms(2) by (simp only: of_int_less_iff)
  then have "real_of_int tot < real_of_int c * 2 ^ 1075" by simp
  moreover have "0 < real_of_int tot" using assms(1) by simp
  ultimately show ?thesis by (simp add: field_simps)
qed

text \<open>
  Claim C5, as stated: for every mapping, \<open>calculate_entropy\<close> returns 0 when the counts
  sum to 0 and the Shannon sum of the specification otherwise. The code does so only
  while every quotient \<open>cnt / tot\<close> is positive: on a mapping whose counts do not sum
  to 0 and that holds a count of 0, \<open>math.log2\<close> raises.
\<close>

theorem calculate_entropy_zero_count_raises:
  "calculate_entropy [(''a'', 0), (''b'', 1)] = Inl ValueError
   \<and> sum_list (dict_values [(''a'', 0 :: int), (''b'', 1)]) \<noteq> 0"
  by (simp add: calculate_entropy_def dict_values_def math_log2_def)

text \<open>
  Claim C5, amended: \<open>calculate_entropy\<close> returns 0 on every mapping whose counts sum
  to 0 (the empty mapping among them); on every mapping of positive counts, the
  contract of the estimator, in which every count is more than \<open>2 ^ -1075\<close> of the
  total (so that no float quotient \<open>cnt / tot\<close> underflows to \<open>0.0\<close>), it returns the
  Shannon sum \<open>- \<Sum> (cnt / tot) * log2 (cnt / tot)\<close> of the specification; a mapping
  with a single entry yields 0, and a non-empty mapping of \<open>k\<close> entries with the same
  positive count yields \<open>log2 k\<close>.
\<close>

theorem calculate_entropy_shannon:
  "(sum_list (dict_values m) = 0 \<longrightarrow> calculate_entropy m = Inr 0)
   \<and> ((\<forall>c\<in>set (dict_values m). 0 < c \<and> sum_list (dict_values m) < c * 2 ^ 1075)
        \<longrightarrow> calculate_entropy m = Inr (spec_entropy m))
   \<and> calculate_entropy [(f, c)] = Inr 0
   \<and> ((\<forall>x\<in>set (dict_values m). x = c) \<and> 0 < c \<and> m \<noteq> []
        \<longrightarrow> calculate_entropy m = Inr (log 2 (real (length m))))"
proof (intro conjI impI)
  assume "sum_list (dict_values m) = 0"
  then show "calculate_entropy m = Inr 0" by (simp add: calculate_entropy_cases)
next
  assume "\<forall>c\<in>set (dict_values m). 0 < c \<and> sum_list (dict_values m) < c * 2 ^ 1075"
  then have pos: "\<forall>c\<in>set (dict_values m). 0 < c" by blast
  show "calculate_entropy m = Inr (spec_entropy m)"
  proof (cases "m = []")
    case True
    then show ?thesis by (simp add: calculate_entropy_cases spec_entropy_def dict_values_def)
  next
    case False
    then have "0 < sum_list (dict_values m)"
      using all_pos_sum [OF pos] by (simp add: dict_values_def)
    then show ?thesis using pos by (simp add: calculate_entropy_cases)
  qed
next
  show "calculate_entropy [(f, c)] = Inr 0"
    by (simp add: calculate_entropy_def dict_values_def math_log2_def)
next
  assume "(\<forall>x\<in>set (dict_values m). x = c) \<and> 0 < c \<and> m \<noteq> []"
  then show "calculate_entropy m = Inr (log 2 (real (length m)))"
    using calculate_entropy_equal_counts [of m c] by simp
qed

theorem calculate_entropy_shannon_witness:
  "sum_list (dict_values [(''w'', 1 :: int), (''x'', 1), (''y'', 1), (''z'', 1)]) < 1 * 2 ^ 1075
   \<and> calculate_entropy [(''w'', 1), (''x'', 1), (''y'', 1), (''z'', 1)] = Inr (log 2 4)
   \<and> calculate_entropy [(''w'', 1), (''x'', 1), (''y'', 1), (''z'', 1)]
       = Inr (spec_entropy [(''w'', 1), (''x'', 1), (''y'', 1), (''z'', 1)])
   \<and> calculate_entropy [(''x'', 0), (''y'', 0)] = Inr 0"
proof -
  let ?m = "[(''w'', 1), (''x'', 1), (''y'', 1), (''z'', 1)] :: int dict"
  let ?z = "[(''x'', 0), (''y'', 0)] :: int dict"
  have pos: "\<forall>c\<in>set (dict_values ?m). 0 < c \<and> sum_list (dict_values ?m) < c * 2 ^ 1075"
    and eq: "(\<forall>x\<in>set (dict_values ?m). x = 1) \<and> 0 < (1::int) \<and> ?m \<noteq> []"
    and zero: "sum_list (dict_values ?z) = 0"
    by (simp_all add: dict_values_def)
  have "calculate_entropy ?m = Inr (log 2 (real (length ?m)))"
    using calculate_entropy_shannon [where m = ?m and c = 1] eq by blast
  moreover have "calculate_entropy ?m = Inr (spec_entropy ?m)"
    using calculate_entropy_shannon [where m = ?m] pos by blast
  moreover have "calculate_entropy ?z = Inr 0"
    using calculate_entropy_shannon [where m = ?z] zero by blast
  moreover have "sum_list (dict_values ?m) < 1 * 2 ^ 1075"
    by (simp add: dict_values_def)
  ultimately show ?thesis by simp
qed

subsection \<open>The loop over the files, component by component\<close>

lemma foldl_file_step:
  "foldl (file_step E c) (d, fo, s) files =
     (foldl dict_incr d files, foldl (\<lambda>d file. dict_add d file (author_email c)) fo files,
      sums_of E c s files)"
  by (induction files arbitrary: d fo s) (simp_all add: file_step_def sums_of_def)

lemma files_loop_eq:
  "files_loop E c fo =
     (counter_of (dict_keys (stats_files c)),
      owners_after fo (author_email c) (dict_keys (stats_files c)),
      sums_of E c zero_sums (dict_keys (stats_files c)))"
  by (simp add: files_loop_def foldl_file_step counter_of_def owners_after_def)

lemma update_fresh: "k \<notin> fst ` set al \<Longrightarrow> AList.update k v al = al @ [(k, v)]"
  by (induction al) auto

lemma dict_get_fresh: "k \<notin> fst ` set d \<Longrightarrow> dict_get d k dflt = dflt"
proof -
  assume "k \<notin> fst ` set d"
  then have "map_of d k = None" by (simp add: map_of_eq_None_iff)
  then show ?thesis by (simp add: dict_get_def)
qed

lemma foldl_dict_incr_distinct:
  "distinct files \<Longrightarrow> set files \<inter> fst ` set d = {} \<Longrightarrow>
   foldl dict_incr d files = d @ map (\<lambda>f. (f, 1)) files"
proof (induction files arbitrary: d)
  case Nil
  then show ?case by simp
next
  case (Cons f files)
  have fresh: "f \<notin> fst ` set d" using Cons.prems(2) by auto
  have step: "dict_incr d f = d @ [(f, 1)]"
    using fresh by (simp add: dict_incr_def update_fresh dict_get_fresh)
  have "set files \<inter> fst ` set (d @ [(f, 1)]) = {}"
    using Cons.prems by auto
  with Cons.IH [of "d @ [(f, 1)]"] Cons.prems(1) step show ?case by simp
qed

lemma counter_of_distinct: "distinct files \<Longrightarrow> counter_of files = map (\<lambda>f. (f, 1)) files"
  using foldl_dict_incr_distinct [of files "[]"] by (simp add: counter_of_def)

(* positivity in general *)

lemma dict_incr_values_pos:
  "\<forall>v\<in>set (dict_values d). 0 < v \<Longrightarrow> \<forall>v\<in>set (dict_values (dict_incr d k)). 0 < v"
proof -
  assume pos: "\<forall>v\<in>set (dict_values d). 0 < v"
  have "0 \<le> dict_get d k 0"
    using pos by (auto simp: dict_get_def dict_values_def split: option.splits dest!: map_of_SomeD intro: order_less_imp_le)
  then have new: "0 < dict_get d k 0 + 1" by simp
  have "set (AList.update k v d) \<subseteq> insert (k, v) (set d)" for v
    by (induction d) auto
  then show ?thesis using pos new unfolding dict_incr_def dict_values_def by fastforce
qed

lemma foldl_dict_incr_pos:
  "\<forall>v\<in>set (dict_values d). 0 < v \<Longrightarrow> \<forall>v\<in>set (dict_values (foldl dict_incr d files)). 0 < v"
proof (induction files arbitrary: d)
  case Nil
  then show ?case by simp
next
  case (Cons f files)
  from dict_incr_values_pos [OF Cons.prems] have "\<forall>v\<in>set (dict_values (dict_incr d f)). 0 < v" .
  from Cons.IH [OF this] show ?case by simp
qed

lemma counter_of_pos: "\<forall>v\<in>set (dict_values (counter_of files)). 0 < v"
  unfolding counter_of_def by (rule foldl_dict_incr_pos) (simp add: dict_values_def)

subsection \<open>One turn of the loop over the commits\<close>

lemma calculate_entropy_pos:
  assumes pos: "\<forall>c\<in>set (dict_values m). 0 < c"
  shows "calculate_entropy m = Inr (spec_entropy m)"
proof (cases "m = []")
  case True
  then show ?thesis by (simp add: calculate_entropy_cases spec_entropy_def dict_values_def)
next
  case False
  then have "0 < sum_list (dict_values m)"
    using all_pos_sum [OF pos] by (simp add: dict_values_def)
  then show ?thesis using pos by (simp add: calculate_entropy_cases)
qed

lemma calculate_entropy_counter_of:
  "calculate_entropy (counter_of files) = Inr (spec_entropy (counter_of files))"
  by (rule calculate_entropy_pos) (rule counter_of_pos)

lemma dict_add_nonempty: "dict_add d k x \<noteq> []"
  by (simp add: dict_add_def)

lemma foldl_dict_add_nonempty:
  "files \<noteq> [] \<or> d \<noteq> [] \<Longrightarrow> foldl (\<lambda>d file. dict_add d file a) d files \<noteq> []"
proof (induction files arbitrary: d)
  case Nil
  then show ?case by simp
next
  case (Cons f files)
  have "dict_add d f a \<noteq> []" by (rule dict_add_nonempty)
  then show ?case using Cons.IH [of "dict_add d f a"] by simp
qed

lemma owners_after_nonempty:
  "files \<noteq> [] \<or> d \<noteq> [] \<Longrightarrow> owners_after d a files \<noteq> []"
  unfolding owners_after_def by (rule foldl_dict_add_nonempty)

lemma owners_after_Nil [simp]: "owners_after d a [] = d"
  by (simp add: owners_after_def)

lemma loop_body_skip: "\<not> qualifies E c \<Longrightarrow> loop_body E st c = Inr st"
  by (auto simp: qualifies_def loop_body_def split: option.splits)

lemma loop_body_emit:
  assumes ts: "fromtimestamp E (committed_date c) = Some cdate"
    and recent: "\<not> cdate < one_year_ago E"
    and ne: "stats_files c \<noteq> [] \<or> file_ownership st \<noteq> []"
  shows "loop_body E st c =
    Inr \<lparr>data = data st @
           [make_row c cdate (sums_of E c zero_sums (dict_keys (stats_files c)))
              (spec_entropy (counter_of (dict_keys (stats_files c))))
              (dict_get (dict_incr (commit_counts_by_author st) (author_email c)) (author_email c) 0)
              (real (sum_list (map card (dict_values
                 (owners_after (file_ownership st) (author_email c) (dict_keys (stats_files c))))))
               / real (length
                 (owners_after (file_ownership st) (author_email c) (dict_keys (stats_files c)))))],
          file_ownership =
            owners_after (file_ownership st) (author_email c) (dict_keys (stats_files c)),
          commit_counts_by_author = dict_incr (commit_counts_by_author st) (author_email c)\<rparr>"
proof -
  have "dict_keys (stats_files c) \<noteq> [] \<or> file_ownership st \<noteq> []"
    using ne by (simp add: dict_keys_def)
  then have "owners_after (file_ownership st) (author_email c) (dict_keys (stats_files c)) \<noteq> []"
    by (rule owners_after_nonempty)
  then show ?thesis
    using ts recent
    by (simp add: loop_body_def files_loop_eq calculate_entropy_counter_of owners_avg_def Let_def)
qed

lemma loop_body_zero_division:
  assumes "qualifies E c" and "stats_files c = []" and "file_ownership st = []"
  shows "loop_body E st c = Inl ZeroDivisionError"
  using assms
  by (auto simp: qualifies_def loop_body_def files_loop_eq dict_keys_def
      calculate_entropy_counter_of owners_avg_def Let_def split: option.splits)

lemma qualifiesE:
  assumes "qualifies E c"
  obtains cdate where "fromtimestamp E (committed_date c) = Some cdate" "\<not> cdate < one_year_ago E"
  using assms by (auto simp: qualifies_def split: option.splits)

lemma loop_body_Inr_nonempty:
  assumes "loop_body E st c = Inr st'" and "qualifies E c"
  shows "stats_files c \<noteq> [] \<or> file_ownership st \<noteq> []"
proof (rule ccontr)
  assume "\<not> ?thesis"
  then have "loop_body E st c = Inl ZeroDivisionError"
    using assms(2) by (simp add: loop_body_zero_division)
  with assms(1) show False by simp
qed

lemma make_row_fields [simp]:
  "commit_hash (make_row c d s e fr av) = hexsha c"
  "commit_date (make_row c d s e fr av) = d"
  "author (make_row c d s e fr av) = author_email c"
  "code_entropy (make_row c d s e fr av) = e"
  "commit_frequency_by_author (make_row c d s e fr av) = fr"
  "unique_authors_per_file_avg (make_row c d s e fr av) = av"
  "row_sums (make_row c d s e fr av) = s"
  by (simp_all add: make_row_def row_sums_def)

lemma loop_body_produces:
  assumes q: "qualifies E c" and ne: "stats_files c \<noteq> [] \<or> file_ownership st \<noteq> []"
  obtains st' r where "loop_body E st c = Inr st'" and "data st' = data st @ [r]"
    and "file_ownership st' =
           owners_after (file_ownership st) (author_email c) (dict_keys (stats_files c))"
    and "commit_counts_by_author st' = dict_incr (commit_counts_by_author st) (author_email c)"
    and "commit_hash r = hexsha c"
    and "fromtimestamp E (committed_date c) = Some (commit_date r)"
    and "author r = author_email c"
    and "row_sums r = sums_of E c zero_sums (dict_keys (stats_files c))"
    and "code_entropy r = spec_entropy (counter_of (dict_keys (stats_files c)))"
    and "commit_frequency_by_author r
           = dict_get (dict_incr (commit_counts_by_author st) (author_email c)) (author_email c) 0"
    and "unique_authors_per_file_avg r =
           real (sum_list (map card (dict_values
                 (owners_after (file_ownership st) (author_email c) (dict_keys (stats_files c))))))
           / real (length
                 (owners_after (file_ownership st) (author_email c) (dict_keys (stats_files c))))"
proof -
  from q obtain cdate where ts: "fromtimestamp E (committed_date c) = Some cdate"
    and recent: "\<not> cdate < one_year_ago E" by (rule qualifiesE)
  define r where "r = make_row c cdate (sums_of E c zero_sums (dict_keys (stats_files c)))
              (spec_entropy (counter_of (dict_keys (stats_files c))))
              (dict_get (dict_incr (commit_counts_by_author st) (author_email c)) (author_email c) 0)
              (real (sum_list (map card (dict_values
                 (owners_after (file_ownership st) (author_email c) (dict_keys (stats_files c))))))
               / real (length
                 (owners_after (file_ownership st) (author_email c) (dict_keys (stats_files c)))))"
  define st' where "st' = \<lparr>data = data st @ [r],
          file_ownership =
            owners_after (file_ownership st) (author_email c) (dict_keys (stats_files c)),
          commit_counts_by_author = dict_incr (commit_counts_by_author st) (author_email c)\<rparr>"
  have run: "loop_body E st c = Inr st'"
    unfolding st'_def r_def by (rule loop_body_emit [OF ts recent ne])
  show thesis
  proof (rule that [of st' r])
    show "loop_body E st c = Inr st'" by (rule run)
  qed (simp_all add: st'_def r_def ts)
qed

lemma loop_body_Inr_fields:
  assumes run: "loop_body E st c = Inr st'" and q: "qualifies E c"
  shows "file_ownership st' =
           owners_after (file_ownership st) (author_email c) (dict_keys (stats_files c))"
    and "commit_counts_by_author st' = dict_incr (commit_counts_by_author st) (author_email c)"
    and "\<exists>r. data st' = data st @ [r] \<and> commit_hash r = hexsha c
           \<and> fromtimestamp E (committed_date c) = Some (commit_date r)
           \<and> author r = author_email c
           \<and> commit_frequency_by_author r
               = dict_get (commit_counts_by_author st') (author_email c) 0
           \<and> code_entropy r = spec_entropy (counter_of (dict_keys (stats_files c)))"
proof -
  note ne = loop_body_Inr_nonempty [OF run q]
  from q ne obtain st2 r where *: "loop_body E st c = Inr st2" "data st2 = data st @ [r]"
    "file_ownership st2 =
           owners_after (file_ownership st) (author_email c) (dict_keys (stats_files c))"
    "commit_counts_by_author st2 = dict_incr (commit_counts_by_author st) (author_email c)"
    "commit_hash r = hexsha c"
    "fromtimestamp E (committed_date c) = Some (commit_date r)"
    "author r = author_email c"
    "code_entropy r = spec_entropy (counter_of (dict_keys (stats_files c)))"
    "commit_frequency_by_author r
           = dict_get (dict_incr (commit_counts_by_author st) (author_email c)) (author_email c) 0"
    by (rule loop_body_produces)
  from run *(1) have eq: "st' = st2" by simp
  show "file_ownership st' =
       owners_after (file_ownership st) (author_email c) (dict_keys (stats_files c))"
    using * eq by simp
  show "commit_counts_by_author st' = dict_incr (commit_counts_by_author st) (author_email c)"
    using * eq by simp
  show "\<exists>r. data st' = data st @ [r] \<and> commit_hash r = hexsha c
           \<and> fromtimestamp E (committed_date c) = Some (commit_date r)
           \<and> author r = author_email c
           \<and> commit_frequency_by_author r
               = dict_get (commit_counts_by_author st') (author_email c) 0
           \<and> code_entropy r = spec_entropy (counter_of (dict_keys (stats_files c)))"
    using * eq by (intro exI [of _ r]) simp
qed

subsection \<open>The counter of the authors\<close>

lemma dict_get_update:
  "dict_get (AList.update k v d) a dflt = (if a = k then v else dict_get d a dflt)"
  by (simp add: dict_get_def update_conv')

lemma dict_get_incr:
  "dict_get (dict_incr d k) a 0 = (if a = k then dict_get d k 0 + 1 else dict_get d a 0)"
  by (simp add: dict_incr_def dict_get_update)

lemma dict_get_add:
  "dict_get (dict_add d k x) f {} = (if f = k then insert x (dict_get d k {}) else dict_get d f {})"
  by (simp add: dict_add_def dict_get_update)

lemma loop_body_count_mono:
  assumes "loop_body E st c = Inr st'"
  shows "dict_get (commit_counts_by_author st) a 0 \<le> dict_get (commit_counts_by_author st') a 0"
proof (cases "qualifies E c")
  case True
  from loop_body_Inr_fields(2) [OF assms True] show ?thesis by (simp add: dict_get_incr)
next
  case False
  with assms show ?thesis by (simp add: loop_body_skip)
qed

lemma walk_count_mono:
  "walk E st cs = Inr st' \<Longrightarrow>
   dict_get (commit_counts_by_author st) a 0 \<le> dict_get (commit_counts_by_author st') a 0"
proof (induction cs arbitrary: st)
  case Nil
  then show ?case by simp
next
  case (Cons c cs)
  from Cons.prems obtain st1 where s1: "loop_body E st c = Inr st1" and rest: "walk E st1 cs = Inr st'"
    by (auto split: sum.splits)
  from loop_body_count_mono [OF s1] Cons.IH [OF rest] show ?case by (rule order_trans)
qed

lemma upt_shift: "map (\<lambda>i. k + int i) [1..<Suc (Suc n)] = (k + 1) # map (\<lambda>i. (k + 1) + int i) [1..<Suc n]"
proof -
  have "[1..<Suc (Suc n)] = 1 # map Suc [1..<Suc n]"
    by (simp add: map_Suc_upt upt_conv_Cons del: upt_Suc)
  then show ?thesis by (simp add: comp_def algebra_simps del: upt_Suc)
qed

lemma walk_same_author:
  "walk E st cs = Inr st' \<Longrightarrow> \<forall>c\<in>set cs. qualifies E c \<and> author_email c = a \<Longrightarrow>
   map commit_frequency_by_author (data st') =
     map commit_frequency_by_author (data st)
     @ map (\<lambda>i. dict_get (commit_counts_by_author st) a 0 + int i) [1..<Suc (length cs)]"
proof (induction cs arbitrary: st)
  case Nil
  then show ?case by simp
next
  case (Cons c cs)
  from Cons.prems(1) obtain st1 where s1: "loop_body E st c = Inr st1" and rest: "walk E st1 cs = Inr st'"
    by (auto split: sum.splits)
  have q: "qualifies E c" and a: "author_email c = a" using Cons.prems(2) by simp_all
  have all: "\<forall>c\<in>set cs. qualifies E c \<and> author_email c = a" using Cons.prems(2) by simp
  let ?k = "dict_get (commit_counts_by_author st) a 0"
  have k1: "dict_get (commit_counts_by_author st1) a 0 = ?k + 1"
    using loop_body_Inr_fields(2) [OF s1 q] a by (simp add: dict_get_incr)
  from loop_body_Inr_fields(3) [OF s1 q] obtain r where
    r: "data st1 = data st @ [r]" "commit_frequency_by_author r = ?k + 1"
    using a k1 by auto
  from Cons.IH [OF rest all] show ?case
    unfolding length_Cons upt_shift [of ?k] by (simp add: r k1 del: upt_Suc)
qed

subsection \<open>The ownership dictionary\<close>

lemma owners_after_mono: "dict_get d f {} \<subseteq> dict_get (owners_after d a files) f {}"
proof (induction files arbitrary: d)
  case Nil
  then show ?case by simp
next
  case (Cons g files)
  have "dict_get d f {} \<subseteq> dict_get (dict_add d g a) f {}"
    by (auto simp: dict_get_add)
  also have "\<dots> \<subseteq> dict_get (owners_after (dict_add d g a) a files) f {}"
    by (rule Cons.IH)
  finally show ?case by (simp add: owners_after_def)
qed

lemma owners_after_member:
  "f \<in> set files \<Longrightarrow> a \<in> dict_get (owners_after d a files) f {}"
proof (induction files arbitrary: d)
  case Nil
  then show ?case by simp
next
  case (Cons g files)
  show ?case
  proof (cases "f = g")
    case True
    have "a \<in> dict_get (dict_add d g a) f {}" using True by (simp add: dict_get_add)
    then have "a \<in> dict_get (owners_after (dict_add d g a) a files) f {}"
      using owners_after_mono by blast
    then show ?thesis by (simp add: owners_after_def)
  next
    case False
    then have "f \<in> set files" using Cons.prems by simp
    from Cons.IH [OF this, of "dict_add d g a"] show ?thesis by (simp add: owners_after_def)
  qed
qed

lemma set_update_subset: "set (AList.update k v d) \<subseteq> insert (k, v) (set d)"
  by (induction d) auto

lemma finite_owners_get: "finite_owners d \<Longrightarrow> finite (dict_get d f {})"
  by (auto simp: finite_owners_def dict_get_def dict_values_def list_all_iff
      split: option.splits dest!: map_of_SomeD)

lemma finite_owners_add: "finite_owners d \<Longrightarrow> finite_owners (dict_add d k x)"
proof -
  assume fin: "finite_owners d"
  have "finite (insert x (dict_get d k {}))" using finite_owners_get [OF fin] by simp
  then show ?thesis
    using fin set_update_subset [of k "insert x (dict_get d k {})" d]
    unfolding finite_owners_def dict_add_def dict_values_def list_all_iff by fastforce
qed

lemma finite_owners_after: "finite_owners d \<Longrightarrow> finite_owners (owners_after d a files)"
proof (induction files arbitrary: d)
  case Nil
  then show ?case by simp
next
  case (Cons g files)
  from Cons.IH [OF finite_owners_add [OF Cons.prems]] show ?case by (simp add: owners_after_def)
qed

lemma loop_body_owners:
  assumes "loop_body E st c = Inr st'"
  shows "dict_get (file_ownership st) f {} \<subseteq> dict_get (file_ownership st') f {}"
    and "finite_owners (file_ownership st) \<Longrightarrow> finite_owners (file_ownership st')"
proof -
  show "dict_get (file_ownership st) f {} \<subseteq> dict_get (file_ownership st') f {}"
  proof (cases "qualifies E c")
    case True
    from loop_body_Inr_fields(1) [OF assms True] show ?thesis by (simp add: owners_after_mono)
  next
    case False
    with assms show ?thesis by (simp add: loop_body_skip)
  qed
  show "finite_owners (file_ownership st')" if "finite_owners (file_ownership st)"
  proof (cases "qualifies E c")
    case True
    from loop_body_Inr_fields(1) [OF assms True] that show ?thesis by (simp add: finite_owners_after)
  next
    case False
    with assms that show ?thesis by (simp add: loop_body_skip)
  qed
qed

lemma walk_owners:
  "walk E st cs = Inr st' \<Longrightarrow>
   dict_get (file_ownership st) f {} \<subseteq> dict_get (file_ownership st') f {}
   \<and> (finite_owners (file_ownership st) \<longrightarrow> finite_owners (file_ownership st'))"
proof (induction cs arbitrary: st)
  case Nil
  then show ?case by simp
next
  case (Cons c cs)
  from Cons.prems obtain st1 where s1: "loop_body E st c = Inr st1" and rest: "walk E st1 cs = Inr st'"
    by (auto split: sum.splits)
  from loop_body_owners(1) [OF s1, of f] loop_body_owners(2) [OF s1] Cons.IH [OF rest]
  show ?case by blast
qed

subsection \<open>The rows of a walk\<close>

lemma walk_skip_all: "\<forall>c\<in>set cs. \<not> qualifies E c \<Longrightarrow> walk E st cs = Inr st"
  by (induction cs) (simp_all add: loop_body_skip)

lemma walk_hashes:
  "walk E st cs = Inr st' \<Longrightarrow>
   map commit_hash (data st') = map commit_hash (data st) @ map hexsha (filter (qualifies E) cs)"
proof (induction cs arbitrary: st)
  case Nil
  then show ?case by simp
next
  case (Cons c cs)
  from Cons.prems obtain st1 where s1: "loop_body E st c = Inr st1" and rest: "walk E st1 cs = Inr st'"
    by (auto split: sum.splits)
  show ?case
  proof (cases "qualifies E c")
    case True
    from loop_body_Inr_fields(3) [OF s1 True] obtain r where
      "data st1 = data st @ [r]" "commit_hash r = hexsha c" by auto
    with Cons.IH [OF rest] True show ?thesis by simp
  next
    case False
    then have "st1 = st" using s1 by (simp add: loop_body_skip)
    with Cons.IH [OF rest] False show ?thesis by simp
  qed
qed

subsection \<open>Files that leave the \<open>try\<close> block by an exception\<close>

lemma filter_block_retrieval_fails: "retrieval_fails c f \<Longrightarrow> filter_block E c f s = s"
  by (simp add: retrieval_fails_def filter_block_def try_block_def)

lemma sums_of_Cons: "sums_of E c s (f # files) = sums_of E c (filter_block E c f s) files"
  by (simp add: sums_of_def)

lemma sums_of_Nil: "sums_of E c s [] = s"
  by (simp add: sums_of_def)

lemma sums_of_drop_failed:
  "sums_of E c s files = sums_of E c s (filter (\<lambda>f. \<not> retrieval_fails c f) files)"
  by (induction files arbitrary: s)
     (simp_all add: sums_of_Cons sums_of_Nil filter_block_retrieval_fails)

lemma metric_sums_raises:
  "complexity_raises E c f \<Longrightarrow> metric_sums (filter_block E c f s) = metric_sums s"
  by (auto simp: complexity_raises_def filter_block_def try_block_def metric_sums_def Let_def
      split: option.splits sum.splits)

lemma metric_sums_cong:
  "metric_sums s = metric_sums s' \<Longrightarrow>
   metric_sums (filter_block E c f s) = metric_sums (filter_block E c f s')"
  by (auto simp: filter_block_def try_block_def metric_sums_def Let_def
      split: option.splits sum.splits)

lemma metric_sums_drop_failed:
  "metric_sums s = metric_sums s' \<Longrightarrow>
   metric_sums (sums_of E c s files) =
   metric_sums (sums_of E c s'
     (filter (\<lambda>f. \<not> retrieval_fails c f \<and> \<not> complexity_raises E c f) files))"
proof (induction files arbitrary: s s')
  case Nil
  then show ?case by (simp add: sums_of_Nil)
next
  case (Cons f files)
  show ?case
  proof (cases "retrieval_fails c f \<or> complexity_raises E c f")
    case True
    then have "metric_sums (filter_block E c f s) = metric_sums s"
      by (auto simp: filter_block_retrieval_fails metric_sums_raises)
    then have "metric_sums (filter_block E c f s) = metric_sums s'" using Cons.prems by simp
    from Cons.IH [OF this] True show ?thesis by (auto simp: sums_of_Cons)
  next
    case False
    from Cons.IH [OF metric_sums_cong [OF Cons.prems]] False show ?thesis
      by (simp add: sums_of_Cons)
  qed
qed

section \<open>The claims\<close>

text \<open>The equations that evaluate the program on a concrete input.\<close>

lemmas demo_simps =
  loop_body_def make_row_def files_loop_def file_step_def filter_block_def try_block_def endswith_def
  suffix_to_prefix splitext_ext_def measure_cyclomatic_complexity_def
  measure_maintainability_index_def measure_cohesion_lcom_def measure_coupling_imports_def
  calculate_entropy_def dict_values_def dict_keys_def dict_get_def dict_incr_def dict_add_def
  math_log2_def owners_avg_def zero_sums_def init_state_def Let_def

text \<open>
  Claim C1 says that the mean of the owners per file is 0 when no file has been seen, that
  no error is signalled and that the record is emitted. Line 196 divides by
  \<open>len(file_ownership)\<close> with no guard (the guard \<open>calculate_entropy\<close> has at line 41
  is missing here): when the first qualifying commit of the walk changes no file, the
  division raises \<open>ZeroDivisionError\<close>, nothing catches it, and \<open>analyze_repository\<close>
  ends without a table. The theorem runs the program on such a walk.
\<close>

theorem empty_first_commit_zero_division:
  "analyze_repository demo_env [demo_empty] = Inl ZeroDivisionError"
  by (simp add: analyze_repository_def demo_simps demo_env_def demo_empty_def)

text \<open>
  Claim C2 says that a file whose content retrieval or analysis fails is skipped and
  contributes nothing to \<open>files_changed\<close>, \<open>lines_added\<close>, \<open>lines_deleted\<close> or the four
  metric sums. The \<open>except\<close> of line 178 skips the rest of the \<open>try\<close> block, but the
  three counters are updated at lines 168--170, before the first analyser runs at
  line 173: a file that is read and whose complexity analysis raises stays counted.
  The theorem runs the body of the loop on the commit \<open>demo_raise\<close>, whose only file is
  such a file: the row counts one file, three added lines and one deleted line, with
  the four metric sums 0.
\<close>

theorem analysis_failure_still_counted:
  "complexity_raises demo_env demo_raise ''bad.py''
   \<and> loop_body demo_env init_state demo_raise =
       Inr \<lparr>data = [\<lparr>commit_hash = ''c2'', commit_date = 3000, author = ''bob'',
                       files_changed = 1, lines_added = 3, lines_deleted = 1,
                       total_cyclomatic_complexity = 0, total_maintainability_index = 0,
                       total_cohesion_metric_lcom = 0, total_coupling_metric_imports = 0,
                       code_entropy = 0, commit_frequency_by_author = 1,
                       unique_authors_per_file_avg = 1\<rparr>],
             file_ownership = [(''bad.py'', {''bob''})],
             commit_counts_by_author = [(''bob'', 1)]\<rparr>"
  by (simp add: complexity_raises_def demo_simps demo_env_def demo_raise_def)

text \<open>
  What the code keeps of the requirement, for every qualifying commit that changes a
  file: the record is produced; a file whose content cannot be retrieved contributes
  nothing to \<open>files_changed\<close>, \<open>lines_added\<close>, \<open>lines_deleted\<close> or the four metric sums
  (the seven sums of the row are those of the loop run over the files whose content is
  retrieved, the others left out); a file whose complexity analysis raises contributes
  nothing to the four metric sums (these are the metric sums of the loop run without
  the files of either kind); and a maintainability or cohesion analyser that raises
  gives the value 0 for that metric of the file, inside the extractor.
\<close>

theorem failed_file_omitted_from_sums:
  assumes q: "qualifies E c" and ne: "stats_files c \<noteq> []"
  shows "(\<exists>st' r. loop_body E st c = Inr st' \<and> data st' = data st @ [r]
     \<and> row_sums r = sums_of E c zero_sums
         (filter (\<lambda>f. \<not> retrieval_fails c f) (dict_keys (stats_files c)))
     \<and> metric_sums (row_sums r) = metric_sums (sums_of E c zero_sums
         (filter (\<lambda>f. \<not> retrieval_fails c f \<and> \<not> complexity_raises E c f)
            (dict_keys (stats_files c)))))
     \<and> (mi_visit E src = None \<longrightarrow> measure_maintainability_index E src = 0)
     \<and> (lizard_analyze E src = None \<longrightarrow> measure_cohesion_lcom E src = 0)"
proof -
  let ?s = "sums_of E c zero_sums (dict_keys (stats_files c))"
  have a: "?s = sums_of E c zero_sums
      (filter (\<lambda>f. \<not> retrieval_fails c f) (dict_keys (stats_files c)))"
    by (rule sums_of_drop_failed)
  have b: "metric_sums ?s = metric_sums (sums_of E c zero_sums
      (filter (\<lambda>f. \<not> retrieval_fails c f \<and> \<not> complexity_raises E c f)
         (dict_keys (stats_files c))))"
    by (rule metric_sums_drop_failed) simp
  from ne have "stats_files c \<noteq> [] \<or> file_ownership st \<noteq> []" by simp
  with q obtain st' r where "loop_body E st c = Inr st'" "data st' = data st @ [r]"
    "row_sums r = ?s"
    by (rule loop_body_produces)
  with a b have "\<exists>st' r. loop_body E st c = Inr st' \<and> data st' = data st @ [r]
     \<and> row_sums r = sums_of E c zero_sums
         (filter (\<lambda>f. \<not> retrieval_fails c f) (dict_keys (stats_files c)))
     \<and> metric_sums (row_sums r) = metric_sums (sums_of E c zero_sums
         (filter (\<lambda>f. \<not> retrieval_fails c f \<and> \<not> complexity_raises E c f)
            (dict_keys (stats_files c))))"
    by auto
  then show ?thesis
    by (simp add: measure_maintainability_index_def measure_cohesion_lcom_def)
qed

theorem failed_file_omitted_from_sums_witness:
  "qualifies demo_env demo_mixed \<and> stats_files demo_mixed \<noteq> []
   \<and> retrieval_fails demo_mixed ''gone.py''
   \<and> complexity_raises demo_env demo_mixed ''bad.py''
   \<and> (\<exists>st' r. loop_body demo_env init_state demo_mixed = Inr st'
         \<and> data st' = data init_state @ [r]
         \<and> row_sums r = sums_of demo_env demo_mixed zero_sums
             (filter (\<lambda>f. \<not> retrieval_fails demo_mixed f) (dict_keys (stats_files demo_mixed)))
         \<and> metric_sums (row_sums r) = metric_sums (sums_of demo_env demo_mixed zero_sums
             (filter (\<lambda>f. \<not> retrieval_fails demo_mixed f \<and> \<not> complexity_raises demo_env demo_mixed f)
                (dict_keys (stats_files demo_mixed)))))
   \<and> sums_of demo_env demo_mixed zero_sums
        (filter (\<lambda>f. \<not> retrieval_fails demo_mixed f) (dict_keys (stats_files demo_mixed)))
       = \<lparr>churn_add = 8, churn_del = 3, file_count = 2, complexity_total = 3,
          mi_total = 50, lcom_total = 3, import_count_total = 1\<rparr>
   \<and> mi_visit demo_env ''while'' = None
   \<and> measure_maintainability_index demo_env ''while'' = 0
   \<and> lizard_analyze demo_env ''def f(:'' = None
   \<and> measure_cohesion_lcom demo_env ''def f(:'' = 0"
proof -
  have q: "qualifies demo_env demo_mixed"
    by (simp add: qualifies_def demo_env_def demo_mixed_def)
  have ne: "stats_files demo_mixed \<noteq> []" by (simp add: demo_mixed_def)
  have rf: "retrieval_fails demo_mixed ''gone.py''"
    by (simp add: retrieval_fails_def demo_mixed_def)
  have cr: "complexity_raises demo_env demo_mixed ''bad.py''"
    by (simp add: complexity_raises_def demo_simps demo_env_def demo_mixed_def)
  have sums: "sums_of demo_env demo_mixed zero_sums
        (filter (\<lambda>f. \<not> retrieval_fails demo_mixed f) (dict_keys (stats_files demo_mixed)))
       = \<lparr>churn_add = 8, churn_del = 3, file_count = 2, complexity_total = 3,
          mi_total = 50, lcom_total = 3, import_count_total = 1\<rparr>"
    by (simp add: sums_of_def retrieval_fails_def demo_simps demo_env_def demo_mixed_def)
  have mi: "mi_visit demo_env ''while'' = None" and lz: "lizard_analyze demo_env ''def f(:'' = None"
    by (simp_all add: demo_env_def)
  note t1 = failed_file_omitted_from_sums [OF q ne, of init_state "''while''"]
  note t2 = failed_file_omitted_from_sums [OF q ne, of init_state "''def f(:''"]
  from t1 mi have "measure_maintainability_index demo_env ''while'' = 0" by blast
  moreover from t2 lz have "measure_cohesion_lcom demo_env ''def f(:'' = 0" by blast
  moreover from t1 have "\<exists>st' r. loop_body demo_env init_state demo_mixed = Inr st'
         \<and> data st' = data init_state @ [r]
         \<and> row_sums r = sums_of demo_env demo_mixed zero_sums
             (filter (\<lambda>f. \<not> retrieval_fails demo_mixed f) (dict_keys (stats_files demo_mixed)))
         \<and> metric_sums (row_sums r) = metric_sums (sums_of demo_env demo_mixed zero_sums
             (filter (\<lambda>f. \<not> retrieval_fails demo_mixed f \<and> \<not> complexity_raises demo_env demo_mixed f)
                (dict_keys (stats_files demo_mixed))))"
    by blast
  ultimately show ?thesis using q ne rf cr sums mi lz by blast
qed

text \<open>
  Claim C10: when no commit qualifies, the walk leaves the list of records empty, and
  \<open>analyze_repository\<close> does not return an empty table: building the frame and reading
  its column \<open>commit_date\<close> fails with \<open>KeyError\<close>.
\<close>

theorem no_qualifying_commit_key_error:
  "(\<forall>c\<in>set commits. \<not> qualifies E c) \<longrightarrow>
     walk E init_state commits = Inr init_state \<and> data init_state = []
     \<and> analyze_repository E commits = Inl KeyError"
  by (simp add: walk_skip_all analyze_repository_def assemble_def DataFrame_columns_def
      init_state_def)

theorem no_qualifying_commit_key_error_witness:
  "\<not> qualifies demo_env demo_old \<and> \<not> qualifies demo_env demo_undated
   \<and> analyze_repository demo_env [demo_old, demo_undated] = Inl KeyError"
proof -
  have "\<not> qualifies demo_env demo_old" "\<not> qualifies demo_env demo_undated"
    by (simp_all add: qualifies_def demo_env_def demo_old_def demo_undated_def)
  then show ?thesis
    using no_qualifying_commit_key_error [of "[demo_old, demo_undated]" demo_env] by simp
qed

lemma walk_succeeds:
  "(\<forall>c\<in>set cs. qualifies E c \<longrightarrow> stats_files c \<noteq> []) \<or> file_ownership st \<noteq> [] \<Longrightarrow>
   \<exists>st'. walk E st cs = Inr st'"
proof (induction cs arbitrary: st)
  case Nil
  then show ?case by simp
next
  case (Cons c cs)
  show ?case
  proof (cases "qualifies E c")
    case False
    then have "loop_body E st c = Inr st" by (rule loop_body_skip)
    moreover have "\<exists>st'. walk E st cs = Inr st'"
      using Cons.prems by (intro Cons.IH) auto
    ultimately show ?thesis by simp
  next
    case True
    then have "stats_files c \<noteq> [] \<or> file_ownership st \<noteq> []" using Cons.prems by auto
    then have ne: "stats_files c \<noteq> [] \<or> file_ownership st \<noteq> []" .
    from True ne obtain st1 r where s1: "loop_body E st c = Inr st1"
      and "data st1 = data st @ [r]"
      and fo: "file_ownership st1 =
           owners_after (file_ownership st) (author_email c) (dict_keys (stats_files c))"
      by (rule loop_body_produces)
    have "dict_keys (stats_files c) \<noteq> [] \<or> file_ownership st \<noteq> []"
      using ne by (simp add: dict_keys_def)
    then have "file_ownership st1 \<noteq> []" unfolding fo by (rule owners_after_nonempty)
    then have "\<exists>st'. walk E st1 cs = Inr st'" by (intro Cons.IH) simp
    with s1 show ?thesis by simp
  qed
qed

text \<open>
  Claim C6: the counter of every author never decreases across a walk; a commit that
  does not qualify leaves the state as it is; a qualifying commit adds exactly 1 to the
  counter of its author, leaves the counters of the other authors alone, and its row
  carries the counter after the increment; so after \<open>n\<close> qualifying commits of one
  author, walked from the initial state, the rows carry \<open>1, 2, ..., n\<close>.
\<close>

theorem author_counter_counts_commits:
  "(walk E st cs = Inr st' \<longrightarrow>
      dict_get (commit_counts_by_author st) b 0 \<le> dict_get (commit_counts_by_author st') b 0)
   \<and> (loop_body E st c = Inr st1 \<and> \<not> qualifies E c \<longrightarrow> st1 = st)
   \<and> (loop_body E st c = Inr st1 \<and> qualifies E c \<longrightarrow>
        dict_get (commit_counts_by_author st1) (author_email c) 0
          = dict_get (commit_counts_by_author st) (author_email c) 0 + 1
        \<and> (b \<noteq> author_email c \<longrightarrow>
             dict_get (commit_counts_by_author st1) b 0 = dict_get (commit_counts_by_author st) b 0)
        \<and> (\<exists>r. data st1 = data st @ [r]
              \<and> commit_frequency_by_author r
                  = dict_get (commit_counts_by_author st1) (author_email c) 0))
   \<and> (walk E init_state cs = Inr st' \<and> (\<forall>c\<in>set cs. qualifies E c \<and> author_email c = a) \<longrightarrow>
        map commit_frequency_by_author (data st') = map int [1..<Suc (length cs)])"
proof (intro conjI impI)
  assume "walk E st cs = Inr st'"
  then show "dict_get (commit_counts_by_author st) b 0 \<le> dict_get (commit_counts_by_author st') b 0"
    by (rule walk_count_mono)
next
  assume "loop_body E st c = Inr st1 \<and> \<not> qualifies E c"
  then show "st1 = st" by (auto simp: loop_body_skip)
next
  assume a: "loop_body E st c = Inr st1 \<and> qualifies E c"
  then have run: "loop_body E st c = Inr st1" and q: "qualifies E c" by simp_all
  note f = loop_body_Inr_fields [OF run q]
  show "dict_get (commit_counts_by_author st1) (author_email c) 0
          = dict_get (commit_counts_by_author st) (author_email c) 0 + 1"
    by (simp add: f(2) dict_get_incr)
  show "dict_get (commit_counts_by_author st1) b 0 = dict_get (commit_counts_by_author st) b 0"
    if "b \<noteq> author_email c"
    using that by (simp add: f(2) dict_get_incr)
  from f(3) show "\<exists>r. data st1 = data st @ [r]
              \<and> commit_frequency_by_author r
                  = dict_get (commit_counts_by_author st1) (author_email c) 0"
    by blast
next
  assume "walk E init_state cs = Inr st' \<and> (\<forall>c\<in>set cs. qualifies E c \<and> author_email c = a)"
  then have run: "walk E init_state cs = Inr st'"
    and all: "\<forall>c\<in>set cs. qualifies E c \<and> author_email c = a" by simp_all
  have "map commit_frequency_by_author (data st') =
     map commit_frequency_by_author (data init_state)
     @ map (\<lambda>i. dict_get (commit_counts_by_author init_state) a 0 + int i) [1..<Suc (length cs)]"
    by (rule walk_same_author [OF run all])
  then show "map commit_frequency_by_author (data st') = map int [1..<Suc (length cs)]"
    by (simp add: init_state_def dict_get_def del: upt_Suc)
qed

theorem author_counter_counts_commits_witness:
  "qualifies demo_env demo_x \<and> qualifies demo_env demo_xy \<and> qualifies demo_env demo_y
   \<and> (\<exists>st'. walk demo_env init_state [demo_x, demo_xy, demo_y] = Inr st'
         \<and> map commit_frequency_by_author (data st') = [1, 2, 3])"
proof -
  have q: "qualifies demo_env demo_x" "qualifies demo_env demo_xy" "qualifies demo_env demo_y"
    by (simp_all add: qualifies_def demo_env_def demo_x_def demo_xy_def demo_y_def)
  have a: "author_email demo_x = ''a''" "author_email demo_xy = ''a''" "author_email demo_y = ''a''"
    by (simp_all add: demo_x_def demo_xy_def demo_y_def)
  have "\<forall>c\<in>set [demo_x, demo_xy, demo_y]. qualifies demo_env c \<longrightarrow> stats_files c \<noteq> []"
    by (simp add: demo_x_def demo_xy_def demo_y_def)
  then obtain st' where run: "walk demo_env init_state [demo_x, demo_xy, demo_y] = Inr st'"
    using walk_succeeds [of "[demo_x, demo_xy, demo_y]" demo_env init_state] by blast
  have "map commit_frequency_by_author (data st') = map int [1..<Suc (length [demo_x, demo_xy, demo_y])]"
    using author_counter_counts_commits [where E = demo_env and cs = "[demo_x, demo_xy, demo_y]"
        and st' = st' and a = "''a''"] run q a
    by simp
  also have "\<dots> = [1, 2, 3]" by (simp add: upt_rec)
  finally have "map commit_frequency_by_author (data st') = [1, 2, 3]" .
  with run have "\<exists>st'. walk demo_env init_state [demo_x, demo_xy, demo_y] = Inr st'
         \<and> map commit_frequency_by_author (data st') = [1, 2, 3]"
    by (intro exI [of _ st'] conjI)
  with q show ?thesis by simp
qed

lemma finite_owners_init: "finite_owners (file_ownership init_state)"
  by (simp add: finite_owners_def init_state_def dict_values_def)

text \<open>
  Claim C7: across a walk the set of owners of every file only grows; from any state the
  walk reaches its size never decreases; and a qualifying commit adds its author to the
  owners of every file it changes, whatever the extension of the file.
\<close>

theorem file_ownership_grows:
  "(walk E st cs = Inr st' \<longrightarrow>
      dict_get (file_ownership st) f {} \<subseteq> dict_get (file_ownership st') f {})
   \<and> (walk E init_state cs0 = Inr st \<and> walk E st cs = Inr st' \<longrightarrow>
        card (dict_get (file_ownership st) f {}) \<le> card (dict_get (file_ownership st') f {}))
   \<and> (loop_body E st c = Inr st1 \<and> qualifies E c \<and> f \<in> set (dict_keys (stats_files c)) \<longrightarrow>
        author_email c \<in> dict_get (file_ownership st1) f {})"
proof (intro conjI impI)
  assume "walk E st cs = Inr st'"
  then show "dict_get (file_ownership st) f {} \<subseteq> dict_get (file_ownership st') f {}"
    using walk_owners by blast
next
  assume a: "walk E init_state cs0 = Inr st \<and> walk E st cs = Inr st'"
  then have "finite_owners (file_ownership st)"
    using walk_owners [of E init_state cs0 st] finite_owners_init by blast
  then have "finite_owners (file_ownership st')"
    using a walk_owners [of E st cs st'] by blast
  then have "finite (dict_get (file_ownership st') f {})" by (rule finite_owners_get)
  moreover have "dict_get (file_ownership st) f {} \<subseteq> dict_get (file_ownership st') f {}"
    using a walk_owners by blast
  ultimately show "card (dict_get (file_ownership st) f {}) \<le> card (dict_get (file_ownership st') f {})"
    by (simp add: card_mono)
next
  assume a: "loop_body E st c = Inr st1 \<and> qualifies E c \<and> f \<in> set (dict_keys (stats_files c))"
  then have "file_ownership st1 =
      owners_after (file_ownership st) (author_email c) (dict_keys (stats_files c))"
    using loop_body_Inr_fields(1) by blast
  then show "author_email c \<in> dict_get (file_ownership st1) f {}"
    using a by (simp add: owners_after_member)
qed

lemma demo_walk_x:
  "walk demo_env init_state [demo_x] =
     Inr \<lparr>data = [make_row demo_x 5000 zero_sums 0 1 1],
          file_ownership = [(''x'', {''a''})],
          commit_counts_by_author = [(''a'', 1)]\<rparr>"
  by (simp add: demo_simps demo_env_def demo_x_def)

lemma demo_walk_xy_bob:
  "walk demo_env \<lparr>data = [make_row demo_x 5000 zero_sums 0 1 1],
          file_ownership = [(''x'', {''a''})],
          commit_counts_by_author = [(''a'', 1)]\<rparr> [demo_xy, demo_bob] =
     Inr \<lparr>data = [make_row demo_x 5000 zero_sums 0 1 1,
                  make_row demo_xy 4000 zero_sums 1 2 1,
                  make_row demo_bob 2000 zero_sums 1 1 (4 / 3)],
          file_ownership = [(''x'', {''a''}), (''y'', {''a'', ''b''}), (''z.java'', {''b''})],
          commit_counts_by_author = [(''a'', 2), (''b'', 1)]\<rparr>"
  by (simp add: demo_simps demo_env_def demo_x_def demo_xy_def demo_bob_def log_divide
      insert_commute)

theorem file_ownership_grows_witness:
  "walk demo_env init_state [demo_x] =
     Inr \<lparr>data = [make_row demo_x 5000 zero_sums 0 1 1],
          file_ownership = [(''x'', {''a''})],
          commit_counts_by_author = [(''a'', 1)]\<rparr>
   \<and> walk demo_env \<lparr>data = [make_row demo_x 5000 zero_sums 0 1 1],
          file_ownership = [(''x'', {''a''})],
          commit_counts_by_author = [(''a'', 1)]\<rparr> [demo_xy, demo_bob] =
     Inr \<lparr>data = [make_row demo_x 5000 zero_sums 0 1 1,
                  make_row demo_xy 4000 zero_sums 1 2 1,
                  make_row demo_bob 2000 zero_sums 1 1 (4 / 3)],
          file_ownership = [(''x'', {''a''}), (''y'', {''a'', ''b''}), (''z.java'', {''b''})],
          commit_counts_by_author = [(''a'', 2), (''b'', 1)]\<rparr>
   \<and> dict_get [(''x'', {''a''})] ''y'' {}
       \<subseteq> dict_get [(''x'', {''a''}), (''y'', {''a'', ''b''}), (''z.java'', {''b''})] ''y'' {}
   \<and> card (dict_get [(''x'', {''a''})] ''y'' ({} :: string set))
       \<le> card (dict_get [(''x'', {''a''}), (''y'', {''a'', ''b''}), (''z.java'', {''b''})] ''y'' {})
   \<and> qualifies demo_env demo_x
   \<and> ''x'' \<in> set (dict_keys (stats_files demo_x))
   \<and> author_email demo_x \<in> dict_get [(''x'', {''a''})] ''x'' {}"
proof -
  let ?A = "\<lparr>data = [make_row demo_x 5000 zero_sums 0 1 1],
          file_ownership = [(''x'', {''a''})],
          commit_counts_by_author = [(''a'', 1)]\<rparr>"
  let ?B = "\<lparr>data = [make_row demo_x 5000 zero_sums 0 1 1,
                  make_row demo_xy 4000 zero_sums 1 2 1,
                  make_row demo_bob 2000 zero_sums 1 1 (4 / 3)],
          file_ownership = [(''x'', {''a''}), (''y'', {''a'', ''b''}), (''z.java'', {''b''})],
          commit_counts_by_author = [(''a'', 2), (''b'', 1)]\<rparr>"
  have w1: "walk demo_env init_state [demo_x] = Inr ?A" by (rule demo_walk_x)
  have w2: "walk demo_env ?A [demo_xy, demo_bob] = Inr ?B" by (rule demo_walk_xy_bob)
  have l1: "loop_body demo_env init_state demo_x = Inr ?A"
    using w1 by (simp split: sum.splits)
  have q: "qualifies demo_env demo_x"
    by (simp add: qualifies_def demo_env_def demo_x_def)
  have k: "''x'' \<in> set (dict_keys (stats_files demo_x))"
    by (simp add: dict_keys_def demo_x_def)
  note t = file_ownership_grows [where E = demo_env and st = ?A and cs = "[demo_xy, demo_bob]"
      and st' = ?B and ?cs0.0 = "[demo_x]" and f = "''y''"]
  note u = file_ownership_grows [where E = demo_env and st = init_state and c = demo_x
      and ?st1.0 = ?A and f = "''x''"]
  from t w1 w2 have "dict_get (file_ownership ?A) ''y'' {} \<subseteq> dict_get (file_ownership ?B) ''y'' {}"
    and "card (dict_get (file_ownership ?A) ''y'' {}) \<le> card (dict_get (file_ownership ?B) ''y'' {})"
    by blast+
  moreover from u l1 q k have "author_email demo_x \<in> dict_get (file_ownership ?A) ''x'' {}"
    by blast
  ultimately show ?thesis using w1 w2 q k by simp
qed

lemma sort_key_sorts: "sorts_by_commit_date (sort_key commit_date)"
  by (simp add: sorts_by_commit_date_def sorted_sort_key)

text \<open>
  Claim C3: for every list of commits, in whatever order the walker yields them, the table
  \<open>analyze_repository\<close> returns is in ascending order of \<open>commit_date\<close>, and it has
  exactly one row for each qualifying commit, so that its rows are uniquely keyed by
  \<open>commit_hash\<close> when the walker yields every commit once. The sort of pandas is used
  through what it promises for every \<open>kind\<close>: a rearrangement of the rows in ascending
  order of the column.
\<close>

theorem dataset_sorted_unique:
  assumes srt: "sorts_by_commit_date (sort_values E)"
    and dist: "distinct (map hexsha commits)"
    and run: "analyze_repository E commits = Inr df"
  shows "sorted (map commit_date df) \<and> distinct (map commit_hash df)
         \<and> mset (map commit_hash df) = mset (map hexsha (filter (qualifies E) commits))"
proof -
  from run obtain st where w: "walk E init_state commits = Inr st"
    and df: "df = sort_values E (data st)"
    by (auto simp: analyze_repository_def assemble_def split: sum.splits if_splits)
  from srt have sorted: "sorted (map commit_date df)" and perm: "mset df = mset (data st)"
    unfolding df sorts_by_commit_date_def by simp_all
  have "map commit_hash (data st) = map hexsha (filter (qualifies E) commits)"
    using walk_hashes [OF w] by (simp add: init_state_def)
  moreover have "mset (map commit_hash df) = mset (map commit_hash (data st))"
    using perm by (metis mset_map)
  ultimately have m: "mset (map commit_hash df) = mset (map hexsha (filter (qualifies E) commits))"
    by simp
  have "distinct (map hexsha (filter (qualifies E) commits))"
    using dist by (rule distinct_map_filter)
  then have "distinct (map commit_hash df)"
    using m by (metis mset_eq_imp_distinct_iff)
  with sorted m show ?thesis by simp
qed

theorem dataset_sorted_unique_witness:
  "sorts_by_commit_date (sort_values demo_env)
   \<and> distinct (map hexsha [demo_x, demo_xy, demo_y])
   \<and> analyze_repository demo_env [demo_x, demo_xy, demo_y] =
       Inr [make_row demo_y 3000 zero_sums 0 3 1,
            make_row demo_xy 4000 zero_sums 1 2 1,
            make_row demo_x 5000 zero_sums 0 1 1]
   \<and> map commit_date [make_row demo_y 3000 zero_sums 0 3 1,
            make_row demo_xy 4000 zero_sums 1 2 1,
            make_row demo_x 5000 zero_sums 0 1 1] = [3000, 4000, 5000]
   \<and> sorted (map commit_date [make_row demo_y 3000 zero_sums 0 3 1,
            make_row demo_xy 4000 zero_sums 1 2 1,
            make_row demo_x 5000 zero_sums 0 1 1])
   \<and> distinct (map commit_hash [make_row demo_y 3000 zero_sums 0 3 1,
            make_row demo_xy 4000 zero_sums 1 2 1,
            make_row demo_x 5000 zero_sums 0 1 1])"
proof -
  let ?df = "[make_row demo_y 3000 zero_sums 0 3 1,
            make_row demo_xy 4000 zero_sums 1 2 1,
            make_row demo_x 5000 zero_sums 0 1 1]"
  have srt: "sorts_by_commit_date (sort_values demo_env)"
    using sort_key_sorts by (simp add: demo_env_def)
  have dist: "distinct (map hexsha [demo_x, demo_xy, demo_y])"
    by (simp add: demo_x_def demo_xy_def demo_y_def)
  have run: "analyze_repository demo_env [demo_x, demo_xy, demo_y] = Inr ?df"
    by (simp add: analyze_repository_def assemble_def DataFrame_columns_def demo_simps
        demo_env_def demo_x_def demo_xy_def demo_y_def log_divide)
  have dates: "map commit_date ?df = [3000, 4000, 5000]" by simp
  from dataset_sorted_unique [OF srt dist run] srt dist run dates show ?thesis by blast
qed

lemma sums_of_no_accepted:
  "\<forall>f\<in>set files. \<not> endswith f [''.py'', ''.java''] \<Longrightarrow> sums_of E c s files = s"
  by (induction files arbitrary: s) (simp_all add: sums_of_Cons sums_of_Nil filter_block_def)

text \<open>
  Claim C8 says that every qualifying commit none of whose changed files has an accepted
  extension yields one record, with \<open>files_changed = 0\<close> and the content-derived sums 0.
  A commit that changes no file at all is such a commit, and when no file has been seen
  before it, the unguarded division of line 196 raises (the defect of claim C1) and no
  record is appended. The theorem runs the body of the loop on such a commit.
\<close>

theorem empty_commit_no_record:
  "qualifies demo_env demo_empty
   \<and> list_all (\<lambda>f. \<not> endswith f [''.py'', ''.java'']) (dict_keys (stats_files demo_empty))
   \<and> loop_body demo_env init_state demo_empty = Inl ZeroDivisionError"
  by (simp add: qualifies_def demo_simps demo_env_def demo_empty_def)

text \<open>
  Away from that input the code does what claim C8 says: a qualifying commit none of
  whose changed files has an accepted extension, walked when the ownership dictionary is
  not empty once its files are recorded (the commit changes a file, or an earlier commit
  did), yields exactly one record with \<open>files_changed = 0\<close> and all six content-derived
  sums 0, and its \<open>code_entropy\<close> is \<open>calculate_entropy\<close> of the mapping that gives 1 to
  every changed file of the commit, filtered or not.
\<close>

theorem no_accepted_file_record:
  assumes q: "qualifies E c"
    and ne: "stats_files c \<noteq> [] \<or> file_ownership st \<noteq> []"
    and none: "\<forall>f\<in>set (dict_keys (stats_files c)). \<not> endswith f [''.py'', ''.java'']"
    and dist: "distinct (dict_keys (stats_files c))"
  shows "\<exists>st' r. loop_body E st c = Inr st' \<and> data st' = data st @ [r]
           \<and> row_sums r = zero_sums
           \<and> Inr (code_entropy r)
               = calculate_entropy (map (\<lambda>f. (f, 1)) (dict_keys (stats_files c)))"
proof -
  from q ne obtain st' r where run: "loop_body E st c = Inr st'" "data st' = data st @ [r]"
    and sums: "row_sums r = sums_of E c zero_sums (dict_keys (stats_files c))"
    and ent: "code_entropy r = spec_entropy (counter_of (dict_keys (stats_files c)))"
    by (rule loop_body_produces)
  have "row_sums r = zero_sums" using sums sums_of_no_accepted [OF none] by simp
  moreover have "Inr (code_entropy r)
      = calculate_entropy (map (\<lambda>f. (f, 1)) (dict_keys (stats_files c)))"
    using calculate_entropy_counter_of [of "dict_keys (stats_files c)"] ent
    by (simp add: counter_of_distinct [OF dist])
  ultimately show ?thesis using run by blast
qed

theorem no_accepted_file_record_witness:
  "qualifies demo_env demo_docs \<and> stats_files demo_docs \<noteq> []
   \<and> list_all (\<lambda>f. \<not> endswith f [''.py'', ''.java'']) (dict_keys (stats_files demo_docs))
   \<and> distinct (dict_keys (stats_files demo_docs))
   \<and> (\<exists>st' r. loop_body demo_env init_state demo_docs = Inr st'
         \<and> data st' = data init_state @ [r] \<and> row_sums r = zero_sums
         \<and> Inr (code_entropy r)
             = calculate_entropy (map (\<lambda>f. (f, 1)) (dict_keys (stats_files demo_docs))))
   \<and> calculate_entropy (map (\<lambda>f. (f, 1)) (dict_keys (stats_files demo_docs))) = Inr 1"
proof -
  have q: "qualifies demo_env demo_docs"
    by (simp add: qualifies_def demo_env_def demo_docs_def)
  have ne: "stats_files demo_docs \<noteq> []" by (simp add: demo_docs_def)
  have none: "\<forall>f\<in>set (dict_keys (stats_files demo_docs)). \<not> endswith f [''.py'', ''.java'']"
    by (simp add: demo_docs_def dict_keys_def endswith_def suffix_to_prefix)
  have dist: "distinct (dict_keys (stats_files demo_docs))"
    by (simp add: demo_docs_def dict_keys_def)
  have ent: "calculate_entropy (map (\<lambda>f. (f, 1)) (dict_keys (stats_files demo_docs))) = Inr 1"
    by (simp add: demo_docs_def demo_simps log_divide)
  from ne have ne': "stats_files demo_docs \<noteq> [] \<or> file_ownership init_state \<noteq> []" by simp
  from no_accepted_file_record [OF q ne' none dist] q ne none dist ent
  show ?thesis by (simp add: list_all_iff)
qed

lemma spec_entropy_ones:
  assumes "files \<noteq> []"
  shows "spec_entropy (map (\<lambda>f. (f, 1)) files) = log 2 (real (length files))"
proof -
  let ?m = "map (\<lambda>f. (f, 1 :: int)) files"
  have "calculate_entropy ?m = Inr (log 2 (real (length ?m)))"
    using assms by (intro calculate_entropy_equal_counts [where c = 1]) (auto simp: dict_values_def)
  moreover have "calculate_entropy ?m = Inr (spec_entropy ?m)"
    by (rule calculate_entropy_pos) (auto simp: dict_values_def)
  ultimately show ?thesis by simp
qed

text \<open>
  Claim C9, as stated: the emitted \<open>code_entropy\<close> always equals \<open>log2\<close> of the number
  of changed files. A commit that changes no file, walked after a commit that changed
  one, yields a row whose \<open>code_entropy\<close> is 0 (line 42), while \<open>log2\<close> of 0 files is
  not defined: \<open>math.log2(0)\<close> raises.
\<close>

theorem empty_commit_entropy_zero:
  "walk demo_env init_state [demo_x, demo_empty] =
     Inr \<lparr>data = [make_row demo_x 5000 zero_sums 0 1 1,
                  make_row demo_empty 2000 zero_sums 0 1 1],
          file_ownership = [(''x'', {''a''})],
          commit_counts_by_author = [(''a'', 1), (''ann'', 1)]\<rparr>
   \<and> code_entropy (make_row demo_empty 2000 zero_sums 0 1 1) = 0
   \<and> math_log2 (real (length (stats_files demo_empty))) = Inl ValueError"
  by (simp add: demo_simps demo_env_def demo_x_def demo_empty_def)

text \<open>
  Claim C9, amended: for every qualifying commit the mapping handed to
  \<open>calculate_entropy\<close> gives exactly 1 to every changed file, and the emitted
  \<open>code_entropy\<close> is \<open>log2\<close> of the number of changed files when the commit changes
  a file, and 0 when it changes none.
\<close>

theorem entropy_is_log2_of_file_count:
  assumes q: "qualifies E c"
    and ne: "stats_files c \<noteq> [] \<or> file_ownership st \<noteq> []"
    and dist: "distinct (dict_keys (stats_files c))"
  shows "fst (files_loop E c (file_ownership st)) = map (\<lambda>f. (f, 1)) (dict_keys (stats_files c))
    \<and> (\<exists>st' r. loop_body E st c = Inr st' \<and> data st' = data st @ [r]
          \<and> code_entropy r = (if stats_files c = [] then 0
                               else log 2 (real (length (stats_files c)))))"
proof -
  from q ne obtain st' r where run: "loop_body E st c = Inr st'" "data st' = data st @ [r]"
    and ent: "code_entropy r = spec_entropy (counter_of (dict_keys (stats_files c)))"
    by (rule loop_body_produces)
  have cnt: "counter_of (dict_keys (stats_files c)) = map (\<lambda>f. (f, 1)) (dict_keys (stats_files c))"
    by (rule counter_of_distinct [OF dist])
  have "code_entropy r = (if stats_files c = [] then 0 else log 2 (real (length (stats_files c))))"
  proof (cases "stats_files c = []")
    case True
    then show ?thesis by (simp add: ent dict_keys_def counter_of_def spec_entropy_def)
  next
    case False
    then have "dict_keys (stats_files c) \<noteq> []" by (simp add: dict_keys_def)
    from spec_entropy_ones [OF this]
    have "code_entropy r = log 2 (real (length (dict_keys (stats_files c))))"
      unfolding ent cnt .
    with False show ?thesis by (simp add: dict_keys_def)
  qed
  moreover have "fst (files_loop E c (file_ownership st))
      = map (\<lambda>f. (f, 1)) (dict_keys (stats_files c))"
    by (simp add: files_loop_eq cnt)
  ultimately show ?thesis using run by blast
qed

theorem entropy_is_log2_of_file_count_witness:
  "qualifies demo_env demo_xy \<and> stats_files demo_xy \<noteq> []
   \<and> distinct (dict_keys (stats_files demo_xy))
   \<and> fst (files_loop demo_env demo_xy (file_ownership init_state)) = [(''x'', 1), (''y'', 1)]
   \<and> (\<exists>st' r. loop_body demo_env init_state demo_xy = Inr st'
         \<and> data st' = data init_state @ [r] \<and> code_entropy r = log 2 2)"
proof -
  have q: "qualifies demo_env demo_xy"
    by (simp add: qualifies_def demo_env_def demo_xy_def)
  have ne: "stats_files demo_xy \<noteq> []" by (simp add: demo_xy_def)
  have dist: "distinct (dict_keys (stats_files demo_xy))"
    by (simp add: demo_xy_def dict_keys_def)
  have keys: "map (\<lambda>f. (f, 1 :: int)) (dict_keys (stats_files demo_xy)) = [(''x'', 1), (''y'', 1)]"
    by (simp add: demo_xy_def dict_keys_def)
  have len: "real (length (stats_files demo_xy)) = 2" by (simp add: demo_xy_def)
  from ne have ne': "stats_files demo_xy \<noteq> [] \<or> file_ownership init_state \<noteq> []" by simp
  from entropy_is_log2_of_file_count [OF q ne' dist] q ne dist
  show ?thesis unfolding keys len by simp
qed

end
